theory Spec2Isabelle
  imports Main "HOL-Library.Log_Nat" "HOL-Library.Word"
begin

section \<open>JavaScript numbers\<close>

text \<open>
  A JavaScript number is an IEEE 754 double. The finite doubles are modelled by the
  rationals they denote, next to the two infinities and NaN. The sign of zero is not
  kept: the program observes numbers only through \<^verbatim>\<open>!==\<close>, \<^verbatim>\<open>Math.min\<close>,
  \<^verbatim>\<open>Math.max\<close> and their decimal text in a template string, none of which tells
  \<^verbatim>\<open>-0\<close> from \<^verbatim>\<open>0\<close>. Every arithmetic result is rounded to the nearest double,
  ties to even.
\<close>

datatype jsnum = NaN | NegInfinity | Fin rat | PosInfinity

definition pow2 :: "int \<Rightarrow> rat" where
  "pow2 e = (if 0 \<le> e then 2 ^ nat e else 1 / 2 ^ nat (- e))"

definition pow10 :: "int \<Rightarrow> rat" where
  "pow10 e = (if 0 \<le> e then 10 ^ nat e else 1 / 10 ^ nat (- e))"

text \<open>The binary exponent of a positive rational: \<open>pow2 (binade x) \<le> x < pow2 (binade x + 1)\<close>.\<close>

definition binade :: "rat \<Rightarrow> int" where
  "binade x = (let (p, q) = quotient_of x; k = bitlen p - bitlen q
               in if pow2 k \<le> x then k else k - 1)"

definition round_half_even :: "rat \<Rightarrow> int" where
  "round_half_even x = (let f = \<lfloor>x\<rfloor>; d = x - of_int f
     in if d < 1 / 2 then f else if 1 / 2 < d then f + 1
        else if even f then f else f + 1)"

text \<open>
  Rounding to a double: 53 significant bits, exponents from -1022 (below it the
  spacing stays that of the subnormals) to 1023 (above it the result is infinite).
\<close>

definition round_double :: "rat \<Rightarrow> jsnum" where
  "round_double x = (if x = 0 then Fin 0 else
     let a = \<bar>x\<bar>; e = max (binade a) (- 1022);
         m = round_half_even (a / pow2 (e - 52))
     in if 1024 \<le> e \<or> (e = 1023 \<and> m = 2 ^ 53)
        then (if x < 0 then NegInfinity else PosInfinity)
        else Fin ((if x < 0 then - 1 else 1) * of_int m * pow2 (e - 52)))"

definition is_zero :: "jsnum \<Rightarrow> bool" where
  "is_zero a = (a = Fin 0)"

definition is_neg :: "jsnum \<Rightarrow> bool" where
  "is_neg a = (case a of NegInfinity \<Rightarrow> True | Fin x \<Rightarrow> x < 0 | _ \<Rightarrow> False)"

text \<open>The operator \<^verbatim>\<open>*\<close>.\<close>

definition js_mul :: "jsnum \<Rightarrow> jsnum \<Rightarrow> jsnum" where
  "js_mul a b = (if a = NaN \<or> b = NaN then NaN
     else case (a, b) of
       (Fin x, Fin y) \<Rightarrow> round_double (x * y)
     | _ \<Rightarrow> if is_zero a \<or> is_zero b then NaN
            else if is_neg a \<noteq> is_neg b then NegInfinity else PosInfinity)"

definition js_neg :: "jsnum \<Rightarrow> jsnum" where
  "js_neg a = (case a of NaN \<Rightarrow> NaN | NegInfinity \<Rightarrow> PosInfinity
               | Fin x \<Rightarrow> Fin (- x) | PosInfinity \<Rightarrow> NegInfinity)"

fun js_lt :: "jsnum \<Rightarrow> jsnum \<Rightarrow> bool" where
  "js_lt NaN _ = False"
| "js_lt _ NaN = False"
| "js_lt NegInfinity b = (b \<noteq> NegInfinity)"
| "js_lt (Fin x) (Fin y) = (x < y)"
| "js_lt (Fin x) PosInfinity = True"
| "js_lt (Fin x) NegInfinity = False"
| "js_lt PosInfinity _ = False"

text \<open>\<^verbatim>\<open>Math.max\<close> and \<^verbatim>\<open>Math.min\<close> of two arguments: NaN as soon as one argument is.\<close>

definition Math_max :: "jsnum \<Rightarrow> jsnum \<Rightarrow> jsnum" where
  "Math_max a b = (if a = NaN \<or> b = NaN then NaN else if js_lt a b then b else a)"

definition Math_min :: "jsnum \<Rightarrow> jsnum \<Rightarrow> jsnum" where
  "Math_min a b = (if a = NaN \<or> b = NaN then NaN else if js_lt b a then b else a)"

text \<open>The operator \<^verbatim>\<open>!==\<close> on numbers: NaN differs from everything, itself included.\<close>

definition strict_neq :: "jsnum \<Rightarrow> jsnum \<Rightarrow> bool" where
  "strict_neq a b = (a = NaN \<or> b = NaN \<or> a \<noteq> b)"

subsection \<open>Strings\<close>

text \<open>
  A JavaScript string is a sequence of UTF-16 code units. The values of attributes
  come from the document and may hold any of them, and so does the markup built from
  one; they are lists of code units. What the program writes as a literal (messages,
  selectors, names of classes and attributes) is ASCII and is kept as an Isabelle
  string; \<open>js\<close> gives the code units of such a literal.
\<close>

type_synonym code_unit = "16 word"

type_synonym jsstring = "code_unit list"

definition js :: "string \<Rightarrow> jsstring" where
  "js str = map of_char str"

subsection \<open>parseFloat\<close>

text \<open>
  \<^verbatim>\<open>parseFloat\<close> skips leading white space and line terminators and reads the
  longest prefix that is a decimal literal: an optional sign, then \<^verbatim>\<open>Infinity\<close> or
  digits with an optional fraction and an optional exponent. Without such a prefix the
  result is NaN. What follows the prefix is ignored.
\<close>

definition is_digit :: "code_unit \<Rightarrow> bool" where
  "is_digit c = (0x30 \<le> c \<and> c \<le> 0x39)"

text \<open>
  White space: tab, vertical tab, form feed, the byte order mark and the space
  separators of Unicode; line terminators: line feed, carriage return, line separator
  and paragraph separator.
\<close>

definition is_space :: "code_unit \<Rightarrow> bool" where
  "is_space c =
     (c \<in> {0x09, 0x0B, 0x0C, 0xFEFF, 0x20, 0xA0, 0x1680, 0x202F, 0x205F, 0x3000}
      \<or> (0x2000 \<le> c \<and> c \<le> 0x200A)
      \<or> c \<in> {0x0A, 0x0D, 0x2028, 0x2029})"

definition digits_val :: "jsstring \<Rightarrow> nat" where
  "digits_val ds = foldl (\<lambda>n c. 10 * n + (unat c - 48)) 0 ds"

definition parse_exponent :: "jsstring \<Rightarrow> int" where
  "parse_exponent r = (case r of
       [] \<Rightarrow> 0
     | c # r1 \<Rightarrow>
         if c = of_char (CHR ''e'') \<or> c = of_char (CHR ''E'') then
           (let neg = (case r1 of [] \<Rightarrow> False | d # _ \<Rightarrow> d = of_char (CHR ''-''));
                r2 = (case r1 of [] \<Rightarrow> []
                      | d # r' \<Rightarrow> if d = of_char (CHR ''-'') \<or> d = of_char (CHR ''+'')
                                  then r' else r1);
                ds = takeWhile is_digit r2
            in if ds = [] then 0
               else if neg then - int (digits_val ds) else int (digits_val ds))
         else 0)"

definition parse_unsigned :: "jsstring \<Rightarrow> jsnum" where
  "parse_unsigned r = (if take 8 r = js ''Infinity'' then PosInfinity else
     let ds1 = takeWhile is_digit r; r1 = dropWhile is_digit r;
         dot = (case r1 of [] \<Rightarrow> False | c # _ \<Rightarrow> c = of_char (CHR ''.''));
         ds2 = (if dot then takeWhile is_digit (tl r1) else []);
         r2 = (if dot then dropWhile is_digit (tl r1) else r1)
     in if ds1 = [] \<and> ds2 = [] then NaN
        else round_double (of_nat (digits_val (ds1 @ ds2))
                           * pow10 (parse_exponent r2 - int (length ds2))))"

definition parseFloat :: "jsstring \<Rightarrow> jsnum" where
  "parseFloat str = (let t = dropWhile is_space str in
     case t of
       [] \<Rightarrow> NaN
     | c # r \<Rightarrow> if c = of_char (CHR ''-'') then js_neg (parse_unsigned r)
                else if c = of_char (CHR ''+'') then parse_unsigned r
                else parse_unsigned t)"

text \<open>
  The string a template string or \<^verbatim>\<open>parseFloat\<close> makes of a data attribute:
  a missing attribute reads as \<^verbatim>\<open>undefined\<close>.
\<close>

definition ToString :: "jsstring option \<Rightarrow> jsstring" where
  "ToString v = (case v of None \<Rightarrow> js ''undefined'' | Some str \<Rightarrow> str)"

section \<open>The document\<close>

text \<open>
  Elements are objects with an identity; the program holds references to them and
  mutates them in place. The model keeps them in a store indexed by identity, and the
  tree of the document apart, as a tree of identities. The tree holds elements only:
  the program never reads text.
\<close>

type_synonym eid = nat

datatype css_transform = TranslateY_px jsnum
  \<comment> \<open>the text \<^verbatim>\<open>translateY(${movement}px)\<close>\<close>

record element =
  localName :: string
  classList :: "string list"
  attributes :: "(string \<times> jsstring) list"
  style_transition :: "string option"
  style_transform :: "css_transform option"

datatype dnode = Elem eid "dnode list"

text \<open>
  What the platform's parser makes of markup: elements that are not yet in the store,
  with their children.
\<close>

datatype fnode = FElem element "fnode list"

datatype selector = TagSel string | ClassSel string | AttrSel string

datatype callback = UpdateParallax

datatype effect =
    ConsoleLog string
  | SetInnerHTML eid jsstring
  | SetTransition eid string
  | ClassListAdd eid string
  | Observe eid
  | Unobserve eid
  | SetTransform eid css_transform
  | RequestAnimationFrame callback

record entry =
  target :: eid
  isIntersecting :: bool

text \<open>
  The page: the document, the store of elements, the two things read from the window
  (\<open>prefersReducedMotion\<close>, sampled once when the script is loaded, and \<open>scrollY\<close>), the
  targets of the intersection observer, the variables of the closure of
  \<^verbatim>\<open>setupParallax\<close>, the callbacks waiting for the next animation frame, and the
  operations performed so far, in order. Two parts of the platform are needed to
  assign markup: its parser of HTML fragments, which is not modelled and is a
  parameter of the page (it is given the element the markup is assigned to and the
  markup), and the next identity free for a new element.
\<close>

record page =
  document :: dnode
  heap :: "eid \<Rightarrow> element option"
  prefersReducedMotion :: bool
  scrollY :: jsnum
  observed :: "eid list"
  parallaxElements :: "eid list"
  lastScrollY :: jsnum
  raf_queue :: "callback list"
  trace :: "effect list"
  html_parser :: "element option \<Rightarrow> jsstring \<Rightarrow> fnode list"
  next_id :: eid

subsection \<open>Queries\<close>

fun node_ids :: "dnode \<Rightarrow> eid list" where
  "node_ids (Elem i ks) = i # concat (map node_ids ks)"

fun children_of :: "eid \<Rightarrow> dnode \<Rightarrow> dnode list option"
  and children_of_list :: "eid \<Rightarrow> dnode list \<Rightarrow> dnode list option" where
  "children_of t (Elem i ks) = (if i = t then Some ks else children_of_list t ks)"
| "children_of_list t [] = None"
| "children_of_list t (k # ks) =
     (case children_of t k of Some r \<Rightarrow> Some r | None \<Rightarrow> children_of_list t ks)"

definition descendants :: "dnode \<Rightarrow> eid \<Rightarrow> eid list" where
  "descendants d t = (case children_of t d of
       None \<Rightarrow> []
     | Some ks \<Rightarrow> concat (map node_ids ks))"

definition dataset :: "element \<Rightarrow> string \<Rightarrow> jsstring option" where
  "dataset e k = map_of (attributes e) (''data-'' @ k)"

definition dataset_of :: "page \<Rightarrow> eid \<Rightarrow> string \<Rightarrow> jsstring option" where
  "dataset_of s i k = (case heap s i of None \<Rightarrow> None | Some e \<Rightarrow> dataset e k)"

fun matches_element :: "selector \<Rightarrow> element \<Rightarrow> bool" where
  "matches_element (TagSel t) e = (localName e = t)"
| "matches_element (ClassSel c) e = (c \<in> set (classList e))"
| "matches_element (AttrSel a) e = (map_of (attributes e) a \<noteq> None)"

definition matches :: "selector \<Rightarrow> (eid \<Rightarrow> element option) \<Rightarrow> eid \<Rightarrow> bool" where
  "matches sel h i = (case h i of None \<Rightarrow> False | Some e \<Rightarrow> matches_element sel e)"

definition querySelectorAll :: "selector \<Rightarrow> page \<Rightarrow> eid list" where
  "querySelectorAll sel s = filter (matches sel (heap s)) (node_ids (document s))"

definition querySelector :: "selector \<Rightarrow> page \<Rightarrow> eid option" where
  "querySelector sel s = find (matches sel (heap s)) (node_ids (document s))"

definition element_querySelector :: "selector \<Rightarrow> page \<Rightarrow> eid \<Rightarrow> eid option" where
  "element_querySelector sel s t =
     find (matches sel (heap s)) (descendants (document s) t)"

subsection \<open>Writes\<close>

definition log_effect :: "effect \<Rightarrow> page \<Rightarrow> page" where
  "log_effect ev s = s\<lparr>trace := trace s @ [ev]\<rparr>"

definition console_log :: "string \<Rightarrow> page \<Rightarrow> page" where
  "console_log msg s = log_effect (ConsoleLog msg) s"

definition update_element :: "eid \<Rightarrow> (element \<Rightarrow> element) \<Rightarrow> page \<Rightarrow> page" where
  "update_element i f s = s\<lparr>heap := (heap s)(i := map_option f (heap s i))\<rparr>"

fun replace_children :: "eid \<Rightarrow> dnode list \<Rightarrow> dnode \<Rightarrow> dnode" where
  "replace_children t new (Elem i ks) =
     (if i = t then Elem i new else Elem i (map (replace_children t new) ks))"

text \<open>
  The elements of a parsed fragment enter the store under new identities, in document
  order; the result is the fragment as a tree of identities, the next free identity
  and the store.
\<close>

fun attach :: "fnode \<Rightarrow> eid \<Rightarrow> (eid \<Rightarrow> element option)
                 \<Rightarrow> dnode \<times> eid \<times> (eid \<Rightarrow> element option)"
  and attach_list :: "fnode list \<Rightarrow> eid \<Rightarrow> (eid \<Rightarrow> element option)
                 \<Rightarrow> dnode list \<times> eid \<times> (eid \<Rightarrow> element option)" where
  "attach (FElem e ks) n h =
     (case attach_list ks (Suc n) (h(n \<mapsto> e)) of (ks', n', h') \<Rightarrow> (Elem n ks', n', h'))"
| "attach_list [] n h = ([], n, h)"
| "attach_list (k # ks) n h =
     (case attach k n h of
        (k', n1, h1) \<Rightarrow>
          (case attach_list ks n1 h1 of (ks', n2, h2) \<Rightarrow> (k' # ks', n2, h2)))"

text \<open>
  Assigning \<^verbatim>\<open>innerHTML\<close>: the children of the element are replaced by what the
  platform parses from the markup.
\<close>

definition set_innerHTML :: "eid \<Rightarrow> jsstring \<Rightarrow> page \<Rightarrow> page" where
  "set_innerHTML i markup s =
     log_effect (SetInnerHTML i markup)
       (case attach_list (html_parser s (heap s i) markup) (next_id s) (heap s) of
          (ks, n, h) \<Rightarrow>
            s\<lparr>document := replace_children i ks (document s), heap := h, next_id := n\<rparr>)"

definition set_style_transition :: "eid \<Rightarrow> string \<Rightarrow> page \<Rightarrow> page" where
  "set_style_transition i v s =
     log_effect (SetTransition i v)
       (update_element i (\<lambda>e. e\<lparr>style_transition := Some v\<rparr>) s)"

text \<open>
  The platform keeps an assigned transform only when its text is valid CSS, which the
  text of a finite number followed by \<^verbatim>\<open>px\<close> is and \<^verbatim>\<open>NaNpx\<close>,
  \<^verbatim>\<open>Infinitypx\<close> and \<^verbatim>\<open>-Infinitypx\<close> are not; an invalid value is discarded
  and the property stays as it was. The assignment is an operation of the program
  either way.
\<close>

fun css_valid :: "css_transform \<Rightarrow> bool" where
  "css_valid (TranslateY_px (Fin _)) = True"
| "css_valid (TranslateY_px _) = False"

definition set_style_transform :: "eid \<Rightarrow> css_transform \<Rightarrow> page \<Rightarrow> page" where
  "set_style_transform i v s =
     log_effect (SetTransform i v)
       (if css_valid v then update_element i (\<lambda>e. e\<lparr>style_transform := Some v\<rparr>) s
        else s)"

text \<open>
  A class list and the targets of an observer hold each member once: adding one that
  is there changes nothing.
\<close>

definition add_token :: "'a \<Rightarrow> 'a list \<Rightarrow> 'a list" where
  "add_token c cs = (if c \<in> set cs then cs else cs @ [c])"

definition classList_add :: "eid \<Rightarrow> string \<Rightarrow> page \<Rightarrow> page" where
  "classList_add i c s =
     log_effect (ClassListAdd i c)
       (update_element i (\<lambda>e. e\<lparr>classList := add_token c (classList e)\<rparr>) s)"

definition observe :: "eid \<Rightarrow> page \<Rightarrow> page" where
  "observe i s =
     log_effect (Observe i)
       (s\<lparr>observed := add_token i (observed s)\<rparr>)"

definition unobserve :: "eid \<Rightarrow> page \<Rightarrow> page" where
  "unobserve i s = log_effect (Unobserve i) (s\<lparr>observed := removeAll i (observed s)\<rparr>)"

definition requestAnimationFrame :: "callback \<Rightarrow> page \<Rightarrow> page" where
  "requestAnimationFrame cb s =
     log_effect (RequestAnimationFrame cb) (s\<lparr>raf_queue := raf_queue s @ [cb]\<rparr>)"

section \<open>src/app.js\<close>

definition PARALLAX_MAX_STRENGTH :: jsnum where
  "PARALLAX_MAX_STRENGTH = round_double (3 / 10)"

definition pano_found_msg :: string where
  \<open>pano_found_msg = ''360 Viewer Logic: Element '.gw-pano' found. Hypothetical 360 viewer script is loaded and initialized.''\<close>

definition pano_not_found_msg :: string where
  \<open>pano_not_found_msg = ''360 Viewer Logic: Element '.gw-pano' NOT found. 360 script loading successfully skipped.''\<close>

definition pano_markup :: "jsstring \<Rightarrow> jsstring" where
  \<open>pano_markup src = js ''<p class="text-lg text-indigo-700 font-semibold">360 Viewer Initialized! (Source: '' @ src @ js '')</p>''\<close>

definition load360ViewerScript :: "page \<Rightarrow> page" where
  "load360ViewerScript s = (case querySelector (ClassSel ''gw-pano'') s of
       Some panoElement \<Rightarrow>
         set_innerHTML panoElement
           (pano_markup (ToString (dataset_of s panoElement ''src'')))
           (console_log pano_found_msg s)
     | None \<Rightarrow> console_log pano_not_found_msg s)"

text \<open>The body of the observer's callback for one entry, and the callback.\<close>

definition on_entry :: "page \<Rightarrow> entry \<Rightarrow> page" where
  "on_entry s en = (case element_querySelector (ClassSel ''section-content'') s (target en) of
       None \<Rightarrow> s
     | Some content \<Rightarrow>
         if isIntersecting en then
           unobserve (target en)
             (classList_add (target en) ''is-visible''
                (if prefersReducedMotion s then set_style_transition content ''none'' s
                 else s))
         else s)"

definition observer_callback :: "page \<Rightarrow> entry list \<Rightarrow> page" where
  "observer_callback s entries = foldl on_entry s entries"

definition setupIntersectionObserver :: "page \<Rightarrow> page" where
  "setupIntersectionObserver s =
     foldl (\<lambda>s' section. observe section s') s (querySelectorAll (TagSel ''section'') s)"

definition parallax_msg_disabled :: string where
  "parallax_msg_disabled = ''Parallax Logic: Reduced motion detected. Parallax scrolling is disabled.''"

definition parallax_msg_active :: string where
  "parallax_msg_active = ''Parallax Logic: Parallax initialized and active via requestAnimationFrame.''"

text \<open>The body of the \<^verbatim>\<open>forEach\<close> of \<^verbatim>\<open>updateParallax\<close>.\<close>

definition parallax_element :: "jsnum \<Rightarrow> page \<Rightarrow> eid \<Rightarrow> page" where
  "parallax_element currentScrollY s el =
     (let strength = parseFloat (ToString (dataset_of s el ''parallax''));
          clampedStrength = Math_min (Math_max (Fin 0) strength) PARALLAX_MAX_STRENGTH;
          movement = js_mul (js_mul currentScrollY clampedStrength) (Fin (- 1))
      in set_style_transform el (TranslateY_px movement) s)"

definition updateParallax :: "page \<Rightarrow> page" where
  "updateParallax s =
     (let currentScrollY = scrollY s;
          s1 = (if strict_neq currentScrollY (lastScrollY s)
                then foldl (parallax_element currentScrollY)
                       (s\<lparr>lastScrollY := currentScrollY\<rparr>) (parallaxElements s)
                else s)
      in requestAnimationFrame UpdateParallax s1)"

definition setupParallax :: "page \<Rightarrow> page" where
  "setupParallax s =
     (if prefersReducedMotion s then console_log parallax_msg_disabled s
      else requestAnimationFrame UpdateParallax
             (console_log parallax_msg_active
                (s\<lparr>parallaxElements := querySelectorAll (AttrSel ''data-parallax'') s,
                   lastScrollY := scrollY s\<rparr>)))"

definition onload :: "page \<Rightarrow> page" where
  "onload s = setupParallax (setupIntersectionObserver (load360ViewerScript s))"

section \<open>src/unnamed/part\_000\<close>

text \<open>
  The second file differs from the first in comments and in the selector of
  \<^verbatim>\<open>setupIntersectionObserver\<close> only; its observer is translated on its own.
\<close>

definition on_entry_part000 :: "page \<Rightarrow> entry \<Rightarrow> page" where
  "on_entry_part000 s en =
     (case element_querySelector (ClassSel ''section-content'') s (target en) of
       None \<Rightarrow> s
     | Some content \<Rightarrow>
         if isIntersecting en then
           unobserve (target en)
             (classList_add (target en) ''is-visible''
                (if prefersReducedMotion s then set_style_transition content ''none'' s
                 else s))
         else s)"

definition observer_callback_part000 :: "page \<Rightarrow> entry list \<Rightarrow> page" where
  "observer_callback_part000 s entries = foldl on_entry_part000 s entries"

definition setupIntersectionObserver_part000 :: "page \<Rightarrow> page" where
  "setupIntersectionObserver_part000 s =
     foldl (\<lambda>s' section. observe section s') s (querySelectorAll (ClassSel ''gw-chapter'') s)"

section \<open>The platform\<close>

text \<open>
  After the load event the platform calls the program back: at an animation frame it
  runs the callbacks requested since the last one, with the scroll position of that
  moment; and it delivers batches of intersection entries to the observer.
\<close>

datatype event = AnimationFrame jsnum | Intersection "entry list"

fun run_callback :: "page \<Rightarrow> callback \<Rightarrow> page" where
  "run_callback s UpdateParallax = updateParallax s"

fun step :: "page \<Rightarrow> event \<Rightarrow> page" where
  "step s (AnimationFrame y) =
     foldl run_callback (s\<lparr>scrollY := y, raf_queue := []\<rparr>) (raf_queue s)"
| "step s (Intersection entries) = observer_callback s entries"

definition run :: "page \<Rightarrow> event list \<Rightarrow> page" where
  "run s evs = foldl step s evs"

section \<open>Example pages\<close>

definition new_element :: "string \<Rightarrow> string list \<Rightarrow> (string \<times> jsstring) list \<Rightarrow> element" where
  "new_element t cs as =
     \<lparr>localName = t, classList = cs, attributes = as,
      style_transition = None, style_transform = None\<rparr>"

text \<open>
  On the example pages the parser is given on the one markup that is assigned there:
  a paragraph with three classes (and a text, which the model does not hold).
\<close>

definition ex_parser :: "element option \<Rightarrow> jsstring \<Rightarrow> fnode list" where
  "ex_parser context markup =
     (if markup = pano_markup (js ''pano.jpg'')
      then [FElem (new_element ''p'' [''text-lg'', ''text-indigo-700'', ''font-semibold''] []) []]
      else [])"

definition new_page :: "dnode \<Rightarrow> (eid \<Rightarrow> element option) \<Rightarrow> eid \<Rightarrow> bool \<Rightarrow> jsnum \<Rightarrow> page" where
  "new_page d h n rm y =
     \<lparr>document = d, heap = h, prefersReducedMotion = rm, scrollY = y, observed = [],
      parallaxElements = [], lastScrollY = Fin 0, raf_queue = [], trace = [],
      html_parser = ex_parser, next_id = n\<rparr>"

text \<open>
  A page with a chapter section that has a content wrapper and a strength of 0.5, a
  plain section without wrapper whose strength is not a number, and a panorama mount.
\<close>

definition ex_document :: dnode where
  "ex_document = Elem 0 [Elem 1 [Elem 2 []], Elem 3 [], Elem 4 []]"

definition ex_heap :: "eid \<Rightarrow> element option" where
  "ex_heap =
     [0 \<mapsto> new_element ''html'' [] [],
      1 \<mapsto> new_element ''section'' [''gw-chapter''] [(''data-parallax'', js ''0.5'')],
      2 \<mapsto> new_element ''div'' [''section-content''] [],
      3 \<mapsto> new_element ''section'' [] [(''data-parallax'', js ''abc'')],
      4 \<mapsto> new_element ''div'' [''gw-pano''] [(''data-src'', js ''pano.jpg'')]]"

definition ex_page :: "bool \<Rightarrow> page" where
  "ex_page rm = new_page ex_document ex_heap 5 rm (Fin 0)"

text \<open>A page whose only section is a chapter, without a panorama mount.\<close>

definition ex_chapter_page :: page where
  "ex_chapter_page =
     new_page (Elem 0 [Elem 1 [Elem 2 []]])
       [0 \<mapsto> new_element ''html'' [] [],
        1 \<mapsto> new_element ''section'' [''gw-chapter''] [],
        2 \<mapsto> new_element ''div'' [''section-content''] []]
       3 False (Fin 0)"

section \<open>Auxiliary notions\<close>

text \<open>
  The movement \<^verbatim>\<open>updateParallax\<close> computes for an element, from the scroll position
  and the value of the element's \<^verbatim>\<open>data-parallax\<close> attribute.
\<close>

definition movement_of :: "jsnum \<Rightarrow> jsstring option \<Rightarrow> jsnum" where
  "movement_of y a =
     js_mul (js_mul y (Math_min (Math_max (Fin 0) (parseFloat (ToString a)))
                          PARALLAX_MAX_STRENGTH)) (Fin (- 1))"

text \<open>The operations only the parallax loop performs.\<close>

fun is_parallax_effect :: "effect \<Rightarrow> bool" where
  "is_parallax_effect (SetTransform _ _) = True"
| "is_parallax_effect (RequestAnimationFrame _) = True"
| "is_parallax_effect _ = False"

text \<open>The assignments of a transform to an element.\<close>

fun is_transform_of :: "eid \<Rightarrow> effect \<Rightarrow> bool" where
  "is_transform_of t (SetTransform i _) = (i = t)"
| "is_transform_of t _ = False"

text \<open>The operations that reveal a section: the class added to it, its unobservation.\<close>

fun is_reveal_of :: "eid \<Rightarrow> effect \<Rightarrow> bool" where
  "is_reveal_of t (ClassListAdd i _) = (i = t)"
| "is_reveal_of t (Unobserve i) = (i = t)"
| "is_reveal_of t _ = False"

text \<open>
  The state Revealed of a section: it is not observed, it carries the class
  \<^verbatim>\<open>is-visible\<close> and, under reduced motion, the transition of its content wrapper
  is \<^verbatim>\<open>none\<close>.
\<close>

definition revealed :: "page \<Rightarrow> eid \<Rightarrow> bool" where
  "revealed s t =
     (t \<notin> set (observed s)
      \<and> (case heap s t of None \<Rightarrow> True | Some e \<Rightarrow> ''is-visible'' \<in> set (classList e))
      \<and> (prefersReducedMotion s \<longrightarrow>
           (case element_querySelector (ClassSel ''section-content'') s t of
              None \<Rightarrow> True
            | Some w \<Rightarrow> (case heap s w of None \<Rightarrow> True
                         | Some e \<Rightarrow> style_transition e = Some ''none''))))"

section \<open>Fields after each write\<close>

lemma set_add_token [simp]: "set (add_token c cs) = insert c (set cs)"
  by (auto simp: add_token_def)

lemma add_token_present [simp]: "c \<in> set cs \<Longrightarrow> add_token c cs = cs"
  by (simp add: add_token_def)

lemma log_effect_fields [simp]:
  "document (log_effect ev s) = document s"
  "heap (log_effect ev s) = heap s"
  "prefersReducedMotion (log_effect ev s) = prefersReducedMotion s"
  "scrollY (log_effect ev s) = scrollY s"
  "observed (log_effect ev s) = observed s"
  "parallaxElements (log_effect ev s) = parallaxElements s"
  "lastScrollY (log_effect ev s) = lastScrollY s"
  "raf_queue (log_effect ev s) = raf_queue s"
  "trace (log_effect ev s) = trace s @ [ev]"
  "html_parser (log_effect ev s) = html_parser s"
  "next_id (log_effect ev s) = next_id s"
  by (simp_all add: log_effect_def)

lemma update_element_fields [simp]:
  "document (update_element i f s) = document s"
  "heap (update_element i f s) = (heap s)(i := map_option f (heap s i))"
  "prefersReducedMotion (update_element i f s) = prefersReducedMotion s"
  "scrollY (update_element i f s) = scrollY s"
  "observed (update_element i f s) = observed s"
  "parallaxElements (update_element i f s) = parallaxElements s"
  "lastScrollY (update_element i f s) = lastScrollY s"
  "raf_queue (update_element i f s) = raf_queue s"
  "trace (update_element i f s) = trace s"
  by (simp_all add: update_element_def)

lemma console_log_fields [simp]:
  "document (console_log m s) = document s"
  "heap (console_log m s) = heap s"
  "prefersReducedMotion (console_log m s) = prefersReducedMotion s"
  "scrollY (console_log m s) = scrollY s"
  "observed (console_log m s) = observed s"
  "parallaxElements (console_log m s) = parallaxElements s"
  "lastScrollY (console_log m s) = lastScrollY s"
  "raf_queue (console_log m s) = raf_queue s"
  "trace (console_log m s) = trace s @ [ConsoleLog m]"
  "html_parser (console_log m s) = html_parser s"
  "next_id (console_log m s) = next_id s"
  by (simp_all add: console_log_def)

lemma set_style_transition_fields [simp]:
  "document (set_style_transition i v s) = document s"
  "heap (set_style_transition i v s) =
     (heap s)(i := map_option (\<lambda>e. e\<lparr>style_transition := Some v\<rparr>) (heap s i))"
  "prefersReducedMotion (set_style_transition i v s) = prefersReducedMotion s"
  "scrollY (set_style_transition i v s) = scrollY s"
  "observed (set_style_transition i v s) = observed s"
  "parallaxElements (set_style_transition i v s) = parallaxElements s"
  "lastScrollY (set_style_transition i v s) = lastScrollY s"
  "raf_queue (set_style_transition i v s) = raf_queue s"
  "trace (set_style_transition i v s) = trace s @ [SetTransition i v]"
  by (simp_all add: set_style_transition_def)

lemma set_style_transform_fields [simp]:
  "document (set_style_transform i v s) = document s"
  "heap (set_style_transform i v s) =
     (if css_valid v
      then (heap s)(i := map_option (\<lambda>e. e\<lparr>style_transform := Some v\<rparr>) (heap s i))
      else heap s)"
  "prefersReducedMotion (set_style_transform i v s) = prefersReducedMotion s"
  "scrollY (set_style_transform i v s) = scrollY s"
  "observed (set_style_transform i v s) = observed s"
  "parallaxElements (set_style_transform i v s) = parallaxElements s"
  "lastScrollY (set_style_transform i v s) = lastScrollY s"
  "raf_queue (set_style_transform i v s) = raf_queue s"
  "trace (set_style_transform i v s) = trace s @ [SetTransform i v]"
  by (simp_all add: set_style_transform_def)

lemma classList_add_fields [simp]:
  "document (classList_add i c s) = document s"
  "heap (classList_add i c s) =
     (heap s)(i := map_option (\<lambda>e. e\<lparr>classList := add_token c (classList e)\<rparr>) (heap s i))"
  "prefersReducedMotion (classList_add i c s) = prefersReducedMotion s"
  "scrollY (classList_add i c s) = scrollY s"
  "observed (classList_add i c s) = observed s"
  "parallaxElements (classList_add i c s) = parallaxElements s"
  "lastScrollY (classList_add i c s) = lastScrollY s"
  "raf_queue (classList_add i c s) = raf_queue s"
  "trace (classList_add i c s) = trace s @ [ClassListAdd i c]"
  by (simp_all add: classList_add_def)

lemma observe_fields [simp]:
  "document (observe i s) = document s"
  "heap (observe i s) = heap s"
  "prefersReducedMotion (observe i s) = prefersReducedMotion s"
  "scrollY (observe i s) = scrollY s"
  "observed (observe i s) = add_token i (observed s)"
  "parallaxElements (observe i s) = parallaxElements s"
  "lastScrollY (observe i s) = lastScrollY s"
  "raf_queue (observe i s) = raf_queue s"
  "trace (observe i s) = trace s @ [Observe i]"
  by (simp_all add: observe_def)

lemma unobserve_fields [simp]:
  "document (unobserve i s) = document s"
  "heap (unobserve i s) = heap s"
  "prefersReducedMotion (unobserve i s) = prefersReducedMotion s"
  "scrollY (unobserve i s) = scrollY s"
  "observed (unobserve i s) = removeAll i (observed s)"
  "parallaxElements (unobserve i s) = parallaxElements s"
  "lastScrollY (unobserve i s) = lastScrollY s"
  "raf_queue (unobserve i s) = raf_queue s"
  "trace (unobserve i s) = trace s @ [Unobserve i]"
  by (simp_all add: unobserve_def)

lemma requestAnimationFrame_fields [simp]:
  "document (requestAnimationFrame cb s) = document s"
  "heap (requestAnimationFrame cb s) = heap s"
  "prefersReducedMotion (requestAnimationFrame cb s) = prefersReducedMotion s"
  "scrollY (requestAnimationFrame cb s) = scrollY s"
  "observed (requestAnimationFrame cb s) = observed s"
  "parallaxElements (requestAnimationFrame cb s) = parallaxElements s"
  "lastScrollY (requestAnimationFrame cb s) = lastScrollY s"
  "raf_queue (requestAnimationFrame cb s) = raf_queue s @ [cb]"
  "trace (requestAnimationFrame cb s) = trace s @ [RequestAnimationFrame cb]"
  by (simp_all add: requestAnimationFrame_def)

text \<open>An assigned transform that is not valid CSS changes no element.\<close>

lemma invalid_transform_discarded:
  "\<not> css_valid v \<Longrightarrow> heap (set_style_transform i v s) = heap s"
  by simp

section \<open>The panorama loader\<close>

text \<open>
  C4. When no element has the class \<^verbatim>\<open>gw-pano\<close>, \<^verbatim>\<open>load360ViewerScript\<close> changes
  nothing but the console: the page afterwards is the page before with one operation
  more, the log of the message that the element was not found, which is not the
  message that it was found. No content is assigned and nothing else is written.
\<close>

theorem pano_absent_no_effect:
  assumes "querySelector (ClassSel ''gw-pano'') s = None"
  shows "load360ViewerScript s = s\<lparr>trace := trace s @ [ConsoleLog pano_not_found_msg]\<rparr>
         \<and> pano_not_found_msg \<noteq> pano_found_msg"
  using assms
  by (simp add: load360ViewerScript_def console_log_def log_effect_def
        pano_not_found_msg_def pano_found_msg_def)

theorem pano_absent_no_effect_witness:
  "querySelector (ClassSel ''gw-pano'') ex_chapter_page = None
   \<and> load360ViewerScript ex_chapter_page =
       ex_chapter_page\<lparr>trace := trace ex_chapter_page @ [ConsoleLog pano_not_found_msg]\<rparr>"
proof -
  have h: "querySelector (ClassSel ''gw-pano'') ex_chapter_page = None"
    by (simp add: querySelector_def ex_chapter_page_def new_page_def matches_def
          new_element_def)
  show ?thesis using h pano_absent_no_effect [OF h] by simp
qed

lemma children_of_absent:
  "t \<notin> set (node_ids d) \<Longrightarrow> children_of t d = None"
  "t \<notin> set (concat (map node_ids ks)) \<Longrightarrow> children_of_list t ks = None"
  by (induction t d and t ks rule: children_of_children_of_list.induct) auto

lemma replace_children_absent:
  "t \<notin> set (node_ids d) \<Longrightarrow> replace_children t new d = d"
  by (induction t new d rule: replace_children.induct) (auto simp: map_idI)

lemma children_of_replace_children:
  "t \<in> set (node_ids d) \<Longrightarrow> children_of t (replace_children t new d) = Some new"
  "t \<in> set (concat (map node_ids ks)) \<Longrightarrow>
     children_of_list t (map (replace_children t new) ks) = Some new"
proof (induction t d and t ks rule: children_of_children_of_list.induct)
  case (3 t k ks)
  show ?case
  proof (cases "t \<in> set (node_ids k)")
    case True
    with 3 show ?thesis by simp
  next
    case False
    with 3 show ?thesis
      by (simp add: replace_children_absent children_of_absent)
  qed
qed auto

lemma querySelector_in_document:
  "querySelector sel s = Some p \<Longrightarrow> p \<in> set (node_ids (document s))"
  by (auto simp: querySelector_def find_Some_iff)

text \<open>New elements take identities from the next free one on; the others stay.\<close>

lemma attach_keeps:
  "attach k n h = (k', n', h') \<Longrightarrow> n \<le> n' \<and> (\<forall>i<n. h' i = h i)"
  "attach_list ks n h = (ks', n', h') \<Longrightarrow> n \<le> n' \<and> (\<forall>i<n. h' i = h i)"
proof (induction k n h and ks n h arbitrary: k' n' h' and ks' n' h' rule: attach_attach_list.induct)
  case (1 e ks n h)
  obtain ks1 n1 h1 where a: "attach_list ks (Suc n) (h(n \<mapsto> e)) = (ks1, n1, h1)"
    by (cases "attach_list ks (Suc n) (h(n \<mapsto> e))") auto
  from "1.IH" [OF a] "1.prems" a show ?case by auto
next
  case (2 n h)
  then show ?case by simp
next
  case (3 k ks n h)
  obtain k1 n1 h1 where a: "attach k n h = (k1, n1, h1)"
    by (cases "attach k n h") auto
  obtain ks2 n2 h2 where b: "attach_list ks n1 h1 = (ks2, n2, h2)"
    by (cases "attach_list ks n1 h1") auto
  from "3.IH"(1) [OF a] "3.IH"(2) [OF a [symmetric] refl b] "3.prems" a b
  show ?case by auto
qed

text \<open>
  C5. When an element with the class \<^verbatim>\<open>gw-pano\<close> exists and its \<^verbatim>\<open>data-src\<close>
  attribute is \<open>X\<close>, \<^verbatim>\<open>load360ViewerScript\<close> logs that the element was found and then
  assigns to its content exactly the confirmation markup, \<open>X\<close> between its two fixed
  parts. Afterwards the children of the element are what the platform parses from
  that markup, and the elements that existed before are as they were.
\<close>

theorem pano_present_content:
  assumes \<open>querySelector (ClassSel ''gw-pano'') s = Some p\<close>
    and \<open>dataset_of s p ''src'' = Some X\<close>
    and \<open>markup = js ''<p class="text-lg text-indigo-700 font-semibold">360 Viewer Initialized! (Source: '' @ X @ js '')</p>''\<close>
  shows \<open>trace (load360ViewerScript s) =
           trace s @ [ConsoleLog pano_found_msg, SetInnerHTML p markup]
         \<and> children_of p (document (load360ViewerScript s)) =
             Some (fst (attach_list (html_parser s (heap s p) markup) (next_id s) (heap s)))
         \<and> (\<forall>i<next_id s. heap (load360ViewerScript s) i = heap s i)\<close>
proof -
  obtain ks n h where a: "attach_list (html_parser s (heap s p) markup) (next_id s) (heap s) = (ks, n, h)"
    by (cases "attach_list (html_parser s (heap s p) markup) (next_id s) (heap s)") auto
  have m: "pano_markup (ToString (dataset_of s p ''src'')) = markup"
    using assms(2,3) by (simp add: pano_markup_def ToString_def)
  from attach_keeps(2) [OF a] a m assms(1) querySelector_in_document [OF assms(1)]
  show ?thesis
    by (simp add: load360ViewerScript_def set_innerHTML_def children_of_replace_children)
qed

lemma ex_page_pano:
  "querySelector (ClassSel ''gw-pano'') (ex_page rm) = Some 4"
  "dataset_of (ex_page rm) 4 ''src'' = Some (js ''pano.jpg'')"
  by (simp_all add: querySelector_def dataset_of_def dataset_def ex_page_def new_page_def
        ex_document_def ex_heap_def matches_def new_element_def)

theorem pano_present_content_witness:
  \<open>trace (load360ViewerScript (ex_page False)) =
     [ConsoleLog pano_found_msg,
      SetInnerHTML 4 (js ''<p class="text-lg text-indigo-700 font-semibold">360 Viewer Initialized! (Source: pano.jpg)</p>'')]
   \<and> children_of 4 (document (load360ViewerScript (ex_page False))) = Some [Elem 5 []]\<close>
proof -
  have p: "html_parser (ex_page False) = ex_parser" "next_id (ex_page False) = 5"
    "trace (ex_page False) = []"
    by (simp_all add: ex_page_def new_page_def)
  have k: \<open>js ''<p class="text-lg text-indigo-700 font-semibold">360 Viewer Initialized! (Source: '' @ js ''pano.jpg'' @ js '')</p>'' =
           js ''<p class="text-lg text-indigo-700 font-semibold">360 Viewer Initialized! (Source: pano.jpg)</p>''\<close>
    by (simp add: js_def)
  have e: \<open>ex_parser c (js ''<p class="text-lg text-indigo-700 font-semibold">360 Viewer Initialized! (Source: pano.jpg)</p>'') =
           [FElem (new_element ''p'' [''text-lg'', ''text-indigo-700'', ''font-semibold''] []) []]\<close>
    for c by (simp add: ex_parser_def pano_markup_def js_def)
  from pano_present_content [OF ex_page_pano [of False] refl]
  show ?thesis by (simp add: p k e)
qed

section \<open>The reveal observer\<close>

text \<open>
  C9. With reduced motion preferred, for an intersecting entry whose target has a
  content wrapper, the callback performs exactly three operations, in this order: it
  sets the wrapper's transition to \<^verbatim>\<open>none\<close>, adds the class \<^verbatim>\<open>is-visible\<close> to the
  target, and unobserves the target. Afterwards the wrapper's transition is \<^verbatim>\<open>none\<close>,
  the target carries the class and is no longer observed.
\<close>

theorem reveal_order_reduced_motion:
  assumes "prefersReducedMotion s"
    and "element_querySelector (ClassSel ''section-content'') s (target en) = Some content"
    and "isIntersecting en"
  shows "trace (on_entry s en) =
           trace s @ [SetTransition content ''none'',
                      ClassListAdd (target en) ''is-visible'',
                      Unobserve (target en)]
         \<and> map_option style_transition (heap (on_entry s en) content) =
             map_option (\<lambda>_. Some ''none'') (heap s content)
         \<and> (\<forall>e. heap (on_entry s en) (target en) = Some e
                \<longrightarrow> ''is-visible'' \<in> set (classList e))
         \<and> target en \<notin> set (observed (on_entry s en))"
  using assms by (auto simp add: on_entry_def map_option_case split: option.splits)

lemma ex_page_wrapper:
  "element_querySelector (ClassSel ''section-content'') (ex_page rm) 1 = Some 2"
  by (simp add: element_querySelector_def descendants_def ex_page_def new_page_def
        ex_document_def ex_heap_def matches_def new_element_def)

theorem reveal_order_reduced_motion_witness:
  "prefersReducedMotion (ex_page True)
   \<and> element_querySelector (ClassSel ''section-content'') (ex_page True) 1 = Some 2
   \<and> trace (on_entry (ex_page True) \<lparr>target = 1, isIntersecting = True\<rparr>) =
       [SetTransition 2 ''none'', ClassListAdd 1 ''is-visible'', Unobserve 1]
   \<and> 1 \<notin> set (observed (on_entry (ex_page True) \<lparr>target = 1, isIntersecting = True\<rparr>))"
  using reveal_order_reduced_motion
          [of "ex_page True" "\<lparr>target = 1, isIntersecting = True\<rparr>" 2]
        ex_page_wrapper [of True]
  by (simp add: ex_page_def new_page_def)

lemma on_entry_fields [simp]:
  "document (on_entry s en) = document s"
  "prefersReducedMotion (on_entry s en) = prefersReducedMotion s"
  "scrollY (on_entry s en) = scrollY s"
  "parallaxElements (on_entry s en) = parallaxElements s"
  "lastScrollY (on_entry s en) = lastScrollY s"
  "raf_queue (on_entry s en) = raf_queue s"
  by (simp_all add: on_entry_def split: option.splits)

lemma observer_callback_fields [simp]:
  "document (observer_callback s es) = document s"
  "prefersReducedMotion (observer_callback s es) = prefersReducedMotion s"
  "scrollY (observer_callback s es) = scrollY s"
  "parallaxElements (observer_callback s es) = parallaxElements s"
  "lastScrollY (observer_callback s es) = lastScrollY s"
  "raf_queue (observer_callback s es) = raf_queue s"
  unfolding observer_callback_def by (induction es arbitrary: s; simp)+

lemma on_entry_transform:
  "map_option style_transform (heap (on_entry s en) i) = map_option style_transform (heap s i)"
  by (simp add: on_entry_def option.map_comp comp_def split: option.splits)

lemma on_entry_parallax_effects:
  "filter is_parallax_effect (trace (on_entry s en)) = filter is_parallax_effect (trace s)"
  by (simp add: on_entry_def split: option.splits)

lemma observer_callback_transform:
  "map_option style_transform (heap (observer_callback s es) i) =
     map_option style_transform (heap s i)"
  unfolding observer_callback_def
  by (induction es arbitrary: s) (simp_all add: on_entry_transform)

lemma observer_callback_parallax_effects:
  "filter is_parallax_effect (trace (observer_callback s es)) =
     filter is_parallax_effect (trace s)"
  unfolding observer_callback_def
  by (induction es arbitrary: s) (simp_all add: on_entry_parallax_effects)

section \<open>Rounding stays finite\<close>

lemma pow2_powi: "pow2 e = 2 powi e"
  by (simp add: pow2_def power_int_def power_one_over)


lemma pow2_pos [simp]: "0 < pow2 e"
  by (simp add: pow2_powi)

lemma pow2_mono: "a \<le> b \<Longrightarrow> pow2 a \<le> pow2 b"
  by (simp add: pow2_powi power_int_increasing)

lemma pow2_double: "pow2 (e + 1) = 2 * pow2 e"
  by (simp add: pow2_powi power_int_add_1')

lemma pow2_diff: "pow2 (a - b) = pow2 a / pow2 b"
  by (simp add: pow2_powi power_int_diff)

lemma pow2_nat: "0 \<le> e \<Longrightarrow> pow2 e = of_int (2 ^ nat e)"
  by (simp add: pow2_def)

lemma binade_lower:
  assumes "0 < x"
  shows "pow2 (binade x) \<le> x"
proof -
  obtain p q where pq: "quotient_of x = (p, q)" by (cases "quotient_of x")
  have q: "0 < q" by (rule quotient_of_denom_pos [OF pq])
  have x: "x = of_int p / of_int q" by (rule quotient_of_div [OF pq])
  have p: "0 < p" using assms q by (simp add: x zero_less_divide_iff)
  have bp: "1 \<le> bitlen p" and bq: "1 \<le> bitlen q"
    using p q by (simp_all add: bitlen_alt_def)
  have lp: "pow2 (bitlen p - 1) \<le> of_int p"
    using bitlen_bounds [OF p] bp by (simp add: pow2_nat del: of_int_power)
  have "of_int q < (of_int (2 ^ nat (bitlen q)) :: rat)"
    using bitlen_bounds [OF q] by (simp del: of_int_power)
  then have uq: "of_int q \<le> pow2 (bitlen q)"
    using bq by (simp add: pow2_nat del: of_int_power)
  have "pow2 (bitlen p - bitlen q - 1) = pow2 (bitlen p - 1) / pow2 (bitlen q)"
    using pow2_diff [of "bitlen p - 1" "bitlen q"] by (simp add: algebra_simps)
  also have "\<dots> \<le> of_int p / of_int q"
    using lp uq q p by (intro frac_le) (simp_all add: less_imp_le)
  finally have "pow2 (bitlen p - bitlen q - 1) \<le> x" by (simp add: x)
  then show ?thesis by (simp add: binade_def pq Let_def)
qed

lemma binade_less:
  assumes "0 < x" and "x < pow2 n"
  shows "binade x < n"
proof (rule ccontr)
  assume "\<not> binade x < n"
  then have "pow2 n \<le> pow2 (binade x)" by (simp add: pow2_mono)
  with binade_lower [OF assms(1)] assms(2) show False by simp
qed

lemma round_half_even_bounds:
  assumes "0 \<le> z"
  shows "0 \<le> round_half_even z" and "of_int (round_half_even z) \<le> z + 1"
proof -
  have f: "0 \<le> \<lfloor>z\<rfloor>" using assms by simp
  show "0 \<le> round_half_even z" using f by (simp add: round_half_even_def Let_def)
  have "round_half_even z \<le> \<lfloor>z\<rfloor> + 1" by (simp add: round_half_even_def Let_def)
  then have "(of_int (round_half_even z) :: rat) \<le> of_int (\<lfloor>z\<rfloor> + 1)"
    by (simp only: of_int_le_iff)
  then have a: "(of_int (round_half_even z) :: rat) \<le> of_int \<lfloor>z\<rfloor> + 1" by simp
  have b: "(of_int \<lfloor>z\<rfloor> :: rat) \<le> z" by (rule of_int_floor_le)
  from a b show "of_int (round_half_even z) \<le> z + 1" by linarith
qed

lemma round_double_finite:
  assumes "\<bar>x\<bar> < pow2 1023"
  shows "\<exists>p. round_double x = Fin p"
proof (cases "x = 0")
  case True
  then show ?thesis by (simp add: round_double_def)
next
  case False
  then have "0 < \<bar>x\<bar>" by simp
  from binade_less [OF this assms] have "max (binade \<bar>x\<bar>) (- 1022) < 1023" by simp
  then show ?thesis
    using False by (cases "x < 0") (simp_all add: round_double_def Let_def abs_if max_def)
qed

lemma round_double_bound:
  assumes "\<bar>x\<bar> < pow2 1022" and "round_double x = Fin p"
  shows "\<bar>p\<bar> < pow2 1023"
proof (cases "x = 0")
  case True
  with assms(2) show ?thesis by (simp add: round_double_def)
next
  case False
  define e where "e = max (binade \<bar>x\<bar>) (- 1022)"
  define u where "u = pow2 (e - 52)"
  define m where "m = round_half_even (\<bar>x\<bar> / u)"
  have "0 < \<bar>x\<bar>" using False by simp
  from binade_less [OF this assms(1)] have e: "e < 1022" by (simp add: e_def)
  have u: "0 < u" by (simp add: u_def)
  have "u \<le> pow2 1022" unfolding u_def using e by (intro pow2_mono) simp
  have z: "0 \<le> \<bar>x\<bar> / u" using u by simp
  have m0: "0 \<le> m" unfolding m_def by (rule round_half_even_bounds(1) [OF z])
  have "of_int m \<le> \<bar>x\<bar> / u + 1" unfolding m_def by (rule round_half_even_bounds(2) [OF z])
  then have "of_int m * u \<le> (\<bar>x\<bar> / u + 1) * u" using u by (simp add: mult_right_mono)
  also have "\<dots> = \<bar>x\<bar> + u" using u by (simp add: algebra_simps)
  also have "\<dots> < pow2 1022 + pow2 1022" using assms(1) \<open>u \<le> pow2 1022\<close> by simp
  also have "\<dots> = pow2 1023" using pow2_double [of 1022] by simp
  finally have b: "of_int m * u < pow2 1023" .
  have "p = (if x < 0 then - 1 else 1) * of_int m * u"
    using assms(2) False e unfolding e_def u_def m_def
    by (simp add: round_double_def Let_def max_def split: if_splits)
  then have "\<bar>p\<bar> = of_int m * u" using m0 u by (simp add: abs_mult)
  with b show ?thesis by simp
qed

lemma pow2_1022: "pow2 1022 = 2 ^ 1022"
  by (simp add: pow2_def)

text \<open>A product with a factor in \<open>[0, 1]\<close> and its negation do not overflow.\<close>

lemma scaled_product_finite:
  assumes "\<bar>y\<bar> < 2 ^ 1022" and "0 \<le> c" and "c \<le> 1"
  shows "\<exists>p m. round_double (y * c) = Fin p \<and> round_double (- p) = Fin m"
proof -
  have "\<bar>y * c\<bar> = \<bar>y\<bar> * c" using assms(2) by (simp add: abs_mult)
  also have "\<dots> \<le> \<bar>y\<bar> * 1" using assms(3) by (intro mult_left_mono) simp_all
  finally have "\<bar>y * c\<bar> \<le> \<bar>y\<bar>" by simp
  with assms(1) have lt: "\<bar>y * c\<bar> < pow2 1022" by (simp only: pow2_1022)
  moreover have "pow2 1022 \<le> pow2 1023" by (rule pow2_mono) simp
  ultimately have "\<bar>y * c\<bar> < pow2 1023" by simp
  then obtain p where p: "round_double (y * c) = Fin p"
    using round_double_finite by blast
  from round_double_bound [OF lt p] have "\<bar>- p\<bar> < pow2 1023" by simp
  then obtain m where "round_double (- p) = Fin m"
    using round_double_finite by blast
  with p show ?thesis by blast
qed

section \<open>The parallax loop\<close>

lemma parallax_element_fields [simp]:
  "document (parallax_element y s el) = document s"
  "heap (parallax_element y s el) =
     (if css_valid (TranslateY_px (movement_of y (dataset_of s el ''parallax'')))
      then (heap s)(el := map_option
        (\<lambda>e. e\<lparr>style_transform := Some (TranslateY_px (movement_of y (dataset_of s el ''parallax'')))\<rparr>)
        (heap s el))
      else heap s)"
  "prefersReducedMotion (parallax_element y s el) = prefersReducedMotion s"
  "scrollY (parallax_element y s el) = scrollY s"
  "observed (parallax_element y s el) = observed s"
  "parallaxElements (parallax_element y s el) = parallaxElements s"
  "lastScrollY (parallax_element y s el) = lastScrollY s"
  "raf_queue (parallax_element y s el) = raf_queue s"
  "trace (parallax_element y s el) =
     trace s @ [SetTransform el (TranslateY_px (movement_of y (dataset_of s el ''parallax'')))]"
  by (simp_all add: parallax_element_def movement_of_def Let_def)

lemma dataset_of_parallax_element [simp]:
  "dataset_of (parallax_element y s el) j k = dataset_of s j k"
  by (simp add: dataset_of_def dataset_def split: option.splits)

lemma foldl_parallax_fields [simp]:
  "document (foldl (parallax_element y) s els) = document s"
  "prefersReducedMotion (foldl (parallax_element y) s els) = prefersReducedMotion s"
  "scrollY (foldl (parallax_element y) s els) = scrollY s"
  "observed (foldl (parallax_element y) s els) = observed s"
  "parallaxElements (foldl (parallax_element y) s els) = parallaxElements s"
  "lastScrollY (foldl (parallax_element y) s els) = lastScrollY s"
  "raf_queue (foldl (parallax_element y) s els) = raf_queue s"
  by (induction els arbitrary: s; simp)+

lemma dataset_of_foldl_parallax [simp]:
  "dataset_of (foldl (parallax_element y) s els) j k = dataset_of s j k"
  by (induction els arbitrary: s) simp_all

lemma heap_foldl_parallax:
  "heap (foldl (parallax_element y) s els) j =
     (if j \<in> set els \<and> css_valid (TranslateY_px (movement_of y (dataset_of s j ''parallax'')))
      then map_option
             (\<lambda>e. e\<lparr>style_transform := Some (TranslateY_px (movement_of y (dataset_of s j ''parallax'')))\<rparr>)
             (heap s j)
      else heap s j)"
proof (induction els arbitrary: s)
  case Nil
  show ?case by simp
next
  case (Cons x xs)
  show ?case
    by (cases "heap s j") (auto simp: Cons.IH)
qed

lemma trace_foldl_parallax:
  "trace (foldl (parallax_element y) s els) =
     trace s @ map (\<lambda>el. SetTransform el (TranslateY_px (movement_of y (dataset_of s el ''parallax'')))) els"
  by (induction els arbitrary: s) simp_all

lemma dataset_of_lastScrollY [simp]:
  "dataset_of (s\<lparr>lastScrollY := y\<rparr>) j k = dataset_of s j k"
  by (simp add: dataset_of_def)

lemma updateParallax_changed:
  assumes "strict_neq (scrollY s) (lastScrollY s)"
  shows "heap (updateParallax s) j =
     (if j \<in> set (parallaxElements s)
         \<and> css_valid (TranslateY_px (movement_of (scrollY s) (dataset_of s j ''parallax'')))
      then map_option
             (\<lambda>e. e\<lparr>style_transform :=
                Some (TranslateY_px (movement_of (scrollY s) (dataset_of s j ''parallax'')))\<rparr>)
             (heap s j)
      else heap s j)"
    and "trace (updateParallax s) =
      trace s @ map (\<lambda>el. SetTransform el
                 (TranslateY_px (movement_of (scrollY s) (dataset_of s el ''parallax''))))
               (parallaxElements s) @ [RequestAnimationFrame UpdateParallax]"
    and "lastScrollY (updateParallax s) = scrollY s"
  using assms
  by (simp_all add: updateParallax_def Let_def heap_foldl_parallax trace_foldl_parallax)

lemma updateParallax_unchanged:
  assumes "\<not> strict_neq (scrollY s) (lastScrollY s)"
  shows "updateParallax s = requestAnimationFrame UpdateParallax s"
  using assms by (simp add: updateParallax_def)

lemma updateParallax_fields [simp]:
  "document (updateParallax s) = document s"
  "prefersReducedMotion (updateParallax s) = prefersReducedMotion s"
  "scrollY (updateParallax s) = scrollY s"
  "observed (updateParallax s) = observed s"
  "parallaxElements (updateParallax s) = parallaxElements s"
  "raf_queue (updateParallax s) = raf_queue s @ [UpdateParallax]"
  by (simp_all add: updateParallax_def Let_def)

lemma max_strength_value:
  "PARALLAX_MAX_STRENGTH = Fin (5404319552844595 / 18014398509481984)"
  unfolding PARALLAX_MAX_STRENGTH_def by code_simp

text \<open>The clamp of the source, in terms of the minimum and maximum of rationals.\<close>

lemma clamp_value:
  assumes "strength \<noteq> NaN"
  shows "Math_min (Math_max (Fin 0) strength) PARALLAX_MAX_STRENGTH =
         Fin (case strength of
                Fin r \<Rightarrow> min (max 0 r) (5404319552844595 / 18014398509481984)
              | PosInfinity \<Rightarrow> 5404319552844595 / 18014398509481984
              | _ \<Rightarrow> 0)"
  using assms
  by (cases strength) (auto simp add: Math_min_def Math_max_def max_strength_value)

lemma filter_transform_of_map:
  "filter (is_transform_of el) (map (\<lambda>i. SetTransform i (g i)) els) =
     replicate (count_list els el) (SetTransform el (g el))"
  by (induction els) auto

lemma ex_page_parallax:
  "raf_queue (setupParallax (ex_page False)) = [UpdateParallax]"
  "lastScrollY (setupParallax (ex_page False)) = Fin 0"
  "parallaxElements (setupParallax (ex_page False)) = [1, 3]"
  "heap (setupParallax (ex_page False)) = ex_heap"
  by (simp_all add: setupParallax_def querySelectorAll_def ex_page_def new_page_def
        ex_document_def ex_heap_def matches_def new_element_def)

lemma ex_strengths:
  "parseFloat (ToString (dataset (new_element ''section'' [''gw-chapter''] [(''data-parallax'', js ''0.5'')]) ''parallax'')) = Fin (1 / 2)"
  "parseFloat (ToString (dataset (new_element ''section'' [] [(''data-parallax'', js ''abc'')]) ''parallax'')) = NaN"
  by code_simp+

text \<open>
  The offsets of some strengths and scroll positions: below, inside and above the
  range of the clamp, and with white space before the number.
\<close>

lemma movement_samples:
  "movement_of (Fin 100) (Some (js ''-1'')) = Fin 0"
  "movement_of (Fin 500) (Some (js ''0'')) = Fin 0"
  "movement_of (Fin 100) (Some (js ''0.15'')) = Fin (- 15)"
  "movement_of (Fin 500) (Some (js ''0.15'')) = Fin (- 75)"
  "movement_of (Fin 100) (Some (js ''0.3'')) = Fin (- 30)"
  "movement_of (Fin 500) (Some (js ''5'')) = Fin (- 150)"
  "movement_of (Fin 200) (Some (js ''0.5'')) = Fin (- 60)"
  "movement_of (Fin 0) (Some (js ''0.15'')) = Fin 0"
  "movement_of (Fin 100) (Some (0xA0 # js ''0.2'')) = Fin (- 20)"
  "movement_of (Fin 100) (Some (js ''abc'')) = NaN"
  "movement_of (Fin 100) None = NaN"
  by code_simp+

text \<open>
  C1. At a frame whose scroll position \<open>y\<close> differs from the last one seen, every
  parallax element whose strength attribute parses to a number gets the vertical
  translation \<open>y * min(max(0, strength), 0.3) * -1\<close> pixels: the strength is clamped
  between 0 and the double nearest to 0.3, the product of \<open>y\<close> and the clamped strength
  is rounded to a double \<open>p\<close>, and the translation is the double of \<open>- p\<close>. The scroll
  position is a finite number, here of magnitude below \<open>2 ^ 1022\<close>.
\<close>

theorem parallax_offset:
  assumes "raf_queue s = [UpdateParallax]"
    and "strict_neq (Fin y) (lastScrollY s)"
    and "\<bar>y\<bar> < 2 ^ 1022"
    and "el \<in> set (parallaxElements s)"
    and "heap s el = Some e"
    and "parseFloat (ToString (dataset e ''parallax'')) = strength"
    and "strength \<noteq> NaN"
    and "clamped = (case strength of
                      Fin r \<Rightarrow> min (max 0 r) (5404319552844595 / 18014398509481984)
                    | PosInfinity \<Rightarrow> 5404319552844595 / 18014398509481984
                    | _ \<Rightarrow> 0)"
  shows "0 \<le> clamped \<and> clamped \<le> 3 / 10
         \<and> (\<exists>p m. round_double (y * clamped) = Fin p \<and> round_double (- p) = Fin m
              \<and> map_option style_transform (heap (step s (AnimationFrame (Fin y))) el) =
                  Some (Some (TranslateY_px (Fin m))))"
proof -
  let ?s0 = "s\<lparr>scrollY := Fin y, raf_queue := []\<rparr>"
  have r: "0 \<le> clamped" "clamped \<le> 3 / 10"
    using assms(7) by (cases strength; simp add: assms(8))+
  from scaled_product_finite [OF assms(3) r(1)] r(2)
  obtain p m where p: "round_double (y * clamped) = Fin p" and m: "round_double (- p) = Fin m"
    by auto
  have v: "movement_of (Fin y) (dataset e ''parallax'') = Fin m"
    using clamp_value [OF assms(7)] p m
    by (simp add: movement_of_def assms(6) assms(8) [symmetric] js_mul_def)
  have "strict_neq (scrollY ?s0) (lastScrollY ?s0)" using assms(2) by simp
  from updateParallax_changed(1) [OF this, of el]
  have "heap (updateParallax ?s0) el = Some (e\<lparr>style_transform := Some (TranslateY_px (Fin m))\<rparr>)"
    using assms(4,5) v by (simp add: dataset_of_def)
  then have "map_option style_transform (heap (step s (AnimationFrame (Fin y))) el) =
             Some (Some (TranslateY_px (Fin m)))"
    using assms(1) by simp
  with r p m show ?thesis by blast
qed

theorem parallax_offset_witness:
  "raf_queue (setupParallax (ex_page False)) = [UpdateParallax]
   \<and> strict_neq (Fin 200) (lastScrollY (setupParallax (ex_page False)))
   \<and> 1 \<in> set (parallaxElements (setupParallax (ex_page False)))
   \<and> parseFloat (js ''0.5'') = Fin (1 / 2)
   \<and> map_option style_transform
       (heap (step (setupParallax (ex_page False)) (AnimationFrame (Fin 200))) 1) =
       Some (Some (TranslateY_px (Fin (- 60))))"
proof -
  let ?s = "setupParallax (ex_page False)"
  let ?c = "5404319552844595 / 18014398509481984 :: rat"
  have q: "raf_queue ?s = [UpdateParallax]" by (rule ex_page_parallax)
  have n: "strict_neq (Fin 200) (lastScrollY ?s)"
    by (simp add: ex_page_parallax strict_neq_def)
  have b: "\<bar>200 :: rat\<bar> < 2 ^ 1022" by simp
  have i: "1 \<in> set (parallaxElements ?s)" by (simp add: ex_page_parallax)
  have h: "heap ?s 1 = Some (new_element ''section'' [''gw-chapter''] [(''data-parallax'', js ''0.5'')])"
    by (simp add: ex_page_parallax ex_heap_def)
  have f: "Fin (1 / 2) \<noteq> NaN" by simp
  have c: "?c = (case Fin (1 / 2) of Fin r \<Rightarrow> min (max 0 r) ?c | PosInfinity \<Rightarrow> ?c | _ \<Rightarrow> 0)"
    by simp
  have pf: "parseFloat (js ''0.5'') = Fin (1 / 2)" by code_simp
  have r1: "round_double (200 * ?c) = Fin 60" by code_simp
  have r2: "round_double (- 60) = Fin (- 60)" by code_simp
  from parallax_offset [OF q n b i h ex_strengths(1) f c]
  obtain p m where "round_double (200 * ?c) = Fin p" and "round_double (- p) = Fin m"
    and t: "map_option style_transform (heap (step ?s (AnimationFrame (Fin 200))) 1) =
            Some (Some (TranslateY_px (Fin m)))"
    by blast
  with r1 r2 have "m = - 60" by simp
  with t q n i pf show ?thesis by simp
qed

text \<open>
  C8. At a frame whose scroll position differs from the last one seen, for a parallax
  element whose strength attribute does not parse as a number the clamp is NaN and
  the program assigns \<^verbatim>\<open>translateY(NaNpx)\<close> to the element's transform, as it
  assigns an offset to any other element: among the operations of the frame, those
  that assign a transform to this element are one per occurrence of the element in
  the snapshot, each of them with NaN.
\<close>

theorem parallax_malformed_strength:
  assumes "raf_queue s = [UpdateParallax]"
    and "strict_neq y (lastScrollY s)"
    and "el \<in> set (parallaxElements s)"
    and "heap s el = Some e"
    and "parseFloat (ToString (dataset e ''parallax'')) = NaN"
  shows "Math_min (Math_max (Fin 0) (parseFloat (ToString (dataset e ''parallax''))))
           PARALLAX_MAX_STRENGTH = NaN
         \<and> 0 < count_list (parallaxElements s) el
         \<and> (\<exists>ops. trace (step s (AnimationFrame y)) =
                     trace s @ ops @ [RequestAnimationFrame UpdateParallax]
              \<and> filter (is_transform_of el) ops =
                  replicate (count_list (parallaxElements s) el)
                    (SetTransform el (TranslateY_px NaN)))"
proof -
  let ?s0 = "s\<lparr>scrollY := y, raf_queue := []\<rparr>"
  let ?ops = "map (\<lambda>i. SetTransform i
                 (TranslateY_px (movement_of (scrollY ?s0) (dataset_of ?s0 i ''parallax''))))
               (parallaxElements ?s0)"
  have c: "strict_neq (scrollY ?s0) (lastScrollY ?s0)" using assms(2) by simp
  have k: "Math_min (Math_max (Fin 0) (parseFloat (ToString (dataset e ''parallax''))))
             PARALLAX_MAX_STRENGTH = NaN"
    using assms(5) by (simp add: Math_max_def Math_min_def)
  have m: "movement_of (scrollY ?s0) (dataset_of ?s0 el ''parallax'') = NaN"
    using assms(4) k by (simp add: movement_of_def dataset_of_def js_mul_def)
  have n: "0 < count_list (parallaxElements s) el"
    using assms(3) by (intro gr0I) (simp add: count_list_0_iff)
  have t: "trace (step s (AnimationFrame y)) =
           trace s @ ?ops @ [RequestAnimationFrame UpdateParallax]"
    using updateParallax_changed(2) [OF c] assms(1) by simp
  have f: "filter (is_transform_of el) ?ops =
           replicate (count_list (parallaxElements s) el) (SetTransform el (TranslateY_px NaN))"
    using m by (simp add: filter_transform_of_map)
  from k n t f show ?thesis by blast
qed

theorem parallax_malformed_strength_witness:
  "raf_queue (setupParallax (ex_page False)) = [UpdateParallax]
   \<and> strict_neq (Fin 200) (lastScrollY (setupParallax (ex_page False)))
   \<and> 3 \<in> set (parallaxElements (setupParallax (ex_page False)))
   \<and> parseFloat (js ''abc'') = NaN
   \<and> SetTransform 3 (TranslateY_px NaN)
       \<in> set (trace (step (setupParallax (ex_page False)) (AnimationFrame (Fin 200))))"
proof -
  let ?s = "setupParallax (ex_page False)"
  have q: "raf_queue ?s = [UpdateParallax]" by (rule ex_page_parallax)
  have n: "strict_neq (Fin 200) (lastScrollY ?s)"
    by (simp add: ex_page_parallax strict_neq_def)
  have i: "3 \<in> set (parallaxElements ?s)" by (simp add: ex_page_parallax)
  have h: "heap ?s 3 = Some (new_element ''section'' [] [(''data-parallax'', js ''abc'')])"
    by (simp add: ex_page_parallax ex_heap_def)
  have pf: "parseFloat (js ''abc'') = NaN" by code_simp
  from parallax_malformed_strength [OF q n i h ex_strengths(2)]
  obtain ops where c: "0 < count_list (parallaxElements ?s) 3"
    and t: "trace (step ?s (AnimationFrame (Fin 200))) =
            trace ?s @ ops @ [RequestAnimationFrame UpdateParallax]"
    and f: "filter (is_transform_of 3) ops =
            replicate (count_list (parallaxElements ?s) 3) (SetTransform 3 (TranslateY_px NaN))"
    by blast
  from c f have "SetTransform 3 (TranslateY_px NaN) \<in> set (filter (is_transform_of 3) ops)"
    by simp
  then have "SetTransform 3 (TranslateY_px NaN) \<in> set ops" by simp
  with t have "SetTransform 3 (TranslateY_px NaN)
                 \<in> set (trace (step ?s (AnimationFrame (Fin 200))))"
    by simp
  with q n i pf show ?thesis by simp
qed

text \<open>The loop, once started, stays scheduled.\<close>

lemma step_keeps_loop:
  "raf_queue s = [UpdateParallax] \<Longrightarrow> raf_queue (step s ev) = [UpdateParallax]"
  by (cases ev) simp_all

lemma run_keeps_loop:
  "raf_queue s = [UpdateParallax] \<Longrightarrow> raf_queue (run s evs) = [UpdateParallax]"
  unfolding run_def by (induction evs arbitrary: s) (simp_all add: step_keeps_loop)

text \<open>
  C7. At a frame whose scroll position equals the last one seen, no element of the
  store is changed, the stored position stays, and the only operation is the request
  of the next frame: the callback is scheduled again, and it stays scheduled after
  any sequence of events.
\<close>

theorem parallax_unchanged_scroll:
  assumes "raf_queue s = [UpdateParallax]"
    and "\<not> strict_neq y (lastScrollY s)"
  shows "heap (step s (AnimationFrame y)) = heap s
         \<and> lastScrollY (step s (AnimationFrame y)) = lastScrollY s
         \<and> trace (step s (AnimationFrame y)) = trace s @ [RequestAnimationFrame UpdateParallax]
         \<and> raf_queue (step s (AnimationFrame y)) = [UpdateParallax]
         \<and> raf_queue (run s evs) = [UpdateParallax]"
  using assms by (simp add: updateParallax_unchanged run_keeps_loop)

theorem parallax_unchanged_scroll_witness:
  "raf_queue (setupParallax (ex_page False)) = [UpdateParallax]
   \<and> \<not> strict_neq (Fin 0) (lastScrollY (setupParallax (ex_page False)))
   \<and> heap (step (setupParallax (ex_page False)) (AnimationFrame (Fin 0))) = ex_heap
   \<and> raf_queue (step (setupParallax (ex_page False)) (AnimationFrame (Fin 0))) = [UpdateParallax]
   \<and> raf_queue (run (setupParallax (ex_page False))
        [AnimationFrame (Fin 0), AnimationFrame (Fin 200), AnimationFrame (Fin 200)]) =
       [UpdateParallax]"
proof -
  let ?s = "setupParallax (ex_page False)"
  have q: "raf_queue ?s = [UpdateParallax]" by (rule ex_page_parallax)
  have n: "\<not> strict_neq (Fin 0) (lastScrollY ?s)"
    by (simp add: ex_page_parallax strict_neq_def)
  show ?thesis
    using parallax_unchanged_scroll [OF q n] q n by (simp add: ex_page_parallax)
qed

text \<open>Without a scheduled callback, no event makes the parallax loop do anything.\<close>

lemma step_idle:
  assumes "raf_queue s = []"
  shows "raf_queue (step s ev) = []"
    and "filter is_parallax_effect (trace (step s ev)) = filter is_parallax_effect (trace s)"
    and "map_option style_transform (heap (step s ev) i) = map_option style_transform (heap s i)"
    and "parallaxElements (step s ev) = parallaxElements s"
    and "lastScrollY (step s ev) = lastScrollY s"
  using assms
  by (cases ev; simp add: observer_callback_transform observer_callback_parallax_effects)+

lemma run_idle:
  assumes "raf_queue s = []"
  shows "raf_queue (run s evs) = []
    \<and> filter is_parallax_effect (trace (run s evs)) = filter is_parallax_effect (trace s)
    \<and> (\<forall>i. map_option style_transform (heap (run s evs) i) = map_option style_transform (heap s i))
    \<and> parallaxElements (run s evs) = parallaxElements s
    \<and> lastScrollY (run s evs) = lastScrollY s"
  using assms unfolding run_def
proof (induction evs arbitrary: s)
  case Nil
  then show ?case by simp
next
  case (Cons ev evs)
  from Cons.IH [OF step_idle(1) [OF Cons.prems, of ev]] step_idle [OF Cons.prems, of ev]
  show ?case by simp
qed

text \<open>
  C2. When reduced motion is preferred, \<^verbatim>\<open>setupParallax\<close> only logs a message: it
  enumerates no element and schedules nothing. Then, whatever frames, scroll positions
  and intersection batches follow, no frame callback is ever scheduled and no
  transform is ever assigned.
\<close>

theorem parallax_reduced_motion_never_runs:
  assumes "prefersReducedMotion s"
    and "raf_queue s = []"
  shows "setupParallax s = console_log parallax_msg_disabled s
         \<and> raf_queue (run (setupParallax s) evs) = []
         \<and> filter is_parallax_effect (trace (run (setupParallax s) evs)) =
             filter is_parallax_effect (trace s)
         \<and> (\<forall>i. map_option style_transform (heap (run (setupParallax s) evs) i) =
                  map_option style_transform (heap s i))
         \<and> parallaxElements (run (setupParallax s) evs) = parallaxElements s"
proof -
  have e: "setupParallax s = console_log parallax_msg_disabled s"
    using assms(1) by (simp add: setupParallax_def)
  have "raf_queue (console_log parallax_msg_disabled s) = []" using assms(2) by simp
  from run_idle [OF this, of evs] e show ?thesis by simp
qed

theorem parallax_reduced_motion_never_runs_witness:
  "prefersReducedMotion (ex_page True) \<and> raf_queue (ex_page True) = []
   \<and> raf_queue (run (setupParallax (ex_page True))
        [AnimationFrame (Fin 200), Intersection [\<lparr>target = 1, isIntersecting = True\<rparr>],
         AnimationFrame (Fin 300)]) = []
   \<and> filter is_parallax_effect (trace (run (setupParallax (ex_page True))
        [AnimationFrame (Fin 200), Intersection [\<lparr>target = 1, isIntersecting = True\<rparr>],
         AnimationFrame (Fin 300)])) = []"
proof -
  let ?evs = "[AnimationFrame (Fin 200), Intersection [\<lparr>target = 1, isIntersecting = True\<rparr>],
               AnimationFrame (Fin 300)]"
  have p: "prefersReducedMotion (ex_page True)" by (simp add: ex_page_def new_page_def)
  have q: "raf_queue (ex_page True) = []" by (simp add: ex_page_def new_page_def)
  have t: "filter is_parallax_effect (trace (ex_page True)) = []"
    by (simp add: ex_page_def new_page_def)
  from parallax_reduced_motion_never_runs [OF p q, of ?evs]
  have "raf_queue (run (setupParallax (ex_page True)) ?evs) = []"
    and "filter is_parallax_effect (trace (run (setupParallax (ex_page True)) ?evs)) =
         filter is_parallax_effect (trace (ex_page True))"
    by blast+
  with p q t show ?thesis by (simp only: simp_thms)
qed

section \<open>Sections with and without a content wrapper\<close>

text \<open>
  No event changes the document or the classes that decide which element is the
  content wrapper of a section.
\<close>

lemma matches_updateParallax:
  "matches sel (heap (updateParallax s)) i = matches sel (heap s) i"
proof (cases "strict_neq (scrollY s) (lastScrollY s)")
  case True
  show ?thesis
    by (cases sel; cases "heap s i") (simp_all add: updateParallax_changed(1) [OF True] matches_def)
next
  case False
  then show ?thesis by (simp add: updateParallax_unchanged)
qed

lemma matches_on_entry:
  "c \<noteq> ''is-visible'' \<Longrightarrow>
   matches (ClassSel c) (heap (on_entry s en)) i = matches (ClassSel c) (heap s) i"
  by (cases "heap s i") (auto simp add: matches_def on_entry_def split: option.splits)

lemma element_querySelector_cong:
  "document s' = document s \<Longrightarrow> (\<And>i. matches sel (heap s') i = matches sel (heap s) i) \<Longrightarrow>
   element_querySelector sel s' t = element_querySelector sel s t"
  by (simp add: element_querySelector_def cong: find_cong)

lemma wrapper_on_entry:
  "element_querySelector (ClassSel ''section-content'') (on_entry s en) t =
   element_querySelector (ClassSel ''section-content'') s t"
  by (rule element_querySelector_cong) (simp_all add: matches_on_entry)

lemma wrapper_updateParallax:
  "element_querySelector sel (updateParallax s) t = element_querySelector sel s t"
  by (rule element_querySelector_cong) (simp_all add: matches_updateParallax)

lemma wrapper_frame_start [simp]:
  "element_querySelector sel (s\<lparr>scrollY := y, raf_queue := q\<rparr>) t = element_querySelector sel s t"
  by (simp add: element_querySelector_def)

lemma on_entry_no_wrapper:
  "element_querySelector (ClassSel ''section-content'') s (target en) = None \<Longrightarrow>
   on_entry s en = s"
  by (simp add: on_entry_def)

lemma on_entry_other_target:
  assumes "target en \<noteq> t"
  shows "map_option classList (heap (on_entry s en) t) = map_option classList (heap s t)"
    and "t \<in> set (observed s) \<Longrightarrow> t \<in> set (observed (on_entry s en))"
    and "filter (is_reveal_of t) (trace (on_entry s en)) = filter (is_reveal_of t) (trace s)"
  using assms
  by (simp_all add: on_entry_def option.map_comp comp_def split: option.splits)

lemma observer_callback_no_wrapper:
  assumes "element_querySelector (ClassSel ''section-content'') s t = None"
  shows "element_querySelector (ClassSel ''section-content'') (observer_callback s es) t = None
    \<and> map_option classList (heap (observer_callback s es) t) = map_option classList (heap s t)
    \<and> (t \<in> set (observed s) \<longrightarrow> t \<in> set (observed (observer_callback s es)))
    \<and> filter (is_reveal_of t) (trace (observer_callback s es)) =
        filter (is_reveal_of t) (trace s)"
  using assms unfolding observer_callback_def
proof (induction es arbitrary: s)
  case Nil
  then show ?case by simp
next
  case (Cons en es)
  have w: "element_querySelector (ClassSel ''section-content'') (on_entry s en) t = None"
    using Cons.prems by (simp add: wrapper_on_entry)
  show ?case
  proof (cases "target en = t")
    case True
    with Cons.prems have "on_entry s en = s" by (simp add: on_entry_no_wrapper)
    with Cons.IH [OF Cons.prems] show ?thesis by simp
  next
    case False
    with Cons.IH [OF w] on_entry_other_target [OF False, of s] show ?thesis by simp
  qed
qed

lemma classList_updateParallax:
  "map_option classList (heap (updateParallax s) t) = map_option classList (heap s t)"
proof (cases "strict_neq (scrollY s) (lastScrollY s)")
  case True
  show ?thesis
    by (simp add: updateParallax_changed(1) [OF True] option.map_comp comp_def)
next
  case False
  then show ?thesis by (simp add: updateParallax_unchanged)
qed

lemma reveals_updateParallax:
  "filter (is_reveal_of t) (trace (updateParallax s)) = filter (is_reveal_of t) (trace s)"
proof (cases "strict_neq (scrollY s) (lastScrollY s)")
  case True
  show ?thesis
    by (simp add: updateParallax_changed(2) [OF True] filter_map comp_def)
next
  case False
  then show ?thesis by (simp add: updateParallax_unchanged)
qed

lemma frame_callbacks_no_wrapper:
  "element_querySelector sel (foldl run_callback s cbs) t = element_querySelector sel s t
   \<and> map_option classList (heap (foldl run_callback s cbs) t) = map_option classList (heap s t)
   \<and> observed (foldl run_callback s cbs) = observed s
   \<and> filter (is_reveal_of t) (trace (foldl run_callback s cbs)) =
       filter (is_reveal_of t) (trace s)"
proof (induction cbs arbitrary: s)
  case Nil
  show ?case by simp
next
  case (Cons cb cbs)
  show ?case
    by (cases cb) (simp add: Cons.IH wrapper_updateParallax classList_updateParallax
                    reveals_updateParallax)
qed

lemma step_no_wrapper:
  assumes "element_querySelector (ClassSel ''section-content'') s t = None"
  shows "element_querySelector (ClassSel ''section-content'') (step s ev) t = None
    \<and> map_option classList (heap (step s ev) t) = map_option classList (heap s t)
    \<and> (t \<in> set (observed s) \<longrightarrow> t \<in> set (observed (step s ev)))
    \<and> filter (is_reveal_of t) (trace (step s ev)) = filter (is_reveal_of t) (trace s)"
proof (cases ev)
  case (AnimationFrame y)
  then show ?thesis
    using assms frame_callbacks_no_wrapper
            [of "ClassSel ''section-content''" "s\<lparr>scrollY := y, raf_queue := []\<rparr>" "raf_queue s" t]
    by simp
next
  case (Intersection es)
  then show ?thesis using observer_callback_no_wrapper [OF assms] by simp
qed

lemma ex_no_wrapper:
  "element_querySelector (ClassSel ''section-content'') (setupIntersectionObserver (ex_page rm)) 3 = None"
  "observed (setupIntersectionObserver (ex_page rm)) = [1, 3]"
  by (simp_all add: element_querySelector_def descendants_def setupIntersectionObserver_def
        querySelectorAll_def ex_page_def new_page_def ex_document_def ex_heap_def matches_def
        new_element_def add_token_def)

text \<open>
  C6. For a section without content wrapper the callback does nothing, whether the
  entry intersects or not; and after any sequence of events the classes of the section
  are those it had, the section is still observed if it was, and no operation has
  added a class to it or unobserved it.
\<close>

theorem no_wrapper_never_revealed:
  assumes "element_querySelector (ClassSel ''section-content'') s t = None"
  shows "on_entry s \<lparr>target = t, isIntersecting = b\<rparr> = s
    \<and> map_option classList (heap (run s evs) t) = map_option classList (heap s t)
    \<and> (t \<in> set (observed s) \<longrightarrow> t \<in> set (observed (run s evs)))
    \<and> filter (is_reveal_of t) (trace (run s evs)) = filter (is_reveal_of t) (trace s)"
proof -
  have "element_querySelector (ClassSel ''section-content'') (run s evs) t = None
    \<and> map_option classList (heap (run s evs) t) = map_option classList (heap s t)
    \<and> (t \<in> set (observed s) \<longrightarrow> t \<in> set (observed (run s evs)))
    \<and> filter (is_reveal_of t) (trace (run s evs)) = filter (is_reveal_of t) (trace s)"
    using assms unfolding run_def
  proof (induction evs arbitrary: s)
    case Nil
    then show ?case by simp
  next
    case (Cons ev evs)
    from step_no_wrapper [OF Cons.prems, of ev] Cons.IH [of "step s ev"]
    show ?case by simp
  qed
  then show ?thesis using assms by (simp add: on_entry_no_wrapper)
qed

theorem no_wrapper_never_revealed_witness:
  "element_querySelector (ClassSel ''section-content'')
     (setupIntersectionObserver (ex_page False)) 3 = None
   \<and> 3 \<in> set (observed (setupIntersectionObserver (ex_page False)))
   \<and> 3 \<in> set (observed (run (setupIntersectionObserver (ex_page False))
                  [Intersection [\<lparr>target = 3, isIntersecting = True\<rparr>]]))"
  using no_wrapper_never_revealed [OF ex_no_wrapper(1) [of False],
          of True "[Intersection [\<lparr>target = 3, isIntersecting = True\<rparr>]]"]
    ex_no_wrapper [of False]
  by simp

subsection \<open>The state Revealed\<close>

lemma heap_update_id:
  "(\<And>e. h i = Some e \<Longrightarrow> f e = e) \<Longrightarrow> h(i := map_option f (h i)) = h"
  by (cases "h i") (auto simp: fun_upd_idem_iff)

lemma on_entry_heap_grows:
  "heap s i = None \<Longrightarrow> heap (on_entry s en) i = None"
  "heap s i = Some e \<Longrightarrow>
     \<exists>e'. heap (on_entry s en) i = Some e'
       \<and> set (classList e) \<subseteq> set (classList e')
       \<and> (style_transition e = Some ''none'' \<longrightarrow> style_transition e' = Some ''none'')"
  by (auto simp add: on_entry_def split: option.splits)

lemma on_entry_observed:
  "t \<notin> set (observed s) \<Longrightarrow> t \<notin> set (observed (on_entry s en))"
  by (simp add: on_entry_def split: option.splits)

lemma revealed_on_entry:
  assumes "revealed s t"
  shows "revealed (on_entry s en) t"
proof -
  have o: "t \<notin> set (observed (on_entry s en))"
    using assms by (simp add: revealed_def on_entry_observed)
  have c: "case heap (on_entry s en) t of None \<Rightarrow> True
           | Some e \<Rightarrow> ''is-visible'' \<in> set (classList e)"
  proof (cases "heap s t")
    case None
    then show ?thesis by (simp add: on_entry_heap_grows(1))
  next
    case (Some e)
    with assms have "''is-visible'' \<in> set (classList e)" by (simp add: revealed_def)
    with on_entry_heap_grows(2) [OF Some, of en] show ?thesis by auto
  qed
  have w: "prefersReducedMotion s \<Longrightarrow>
           (case element_querySelector (ClassSel ''section-content'') s t of
              None \<Rightarrow> True
            | Some w \<Rightarrow> (case heap (on_entry s en) w of None \<Rightarrow> True
                         | Some e \<Rightarrow> style_transition e = Some ''none''))"
  proof (cases "element_querySelector (ClassSel ''section-content'') s t")
    case None
    then show ?thesis by simp
  next
    case (Some w)
    assume p: "prefersReducedMotion s"
    show ?thesis
    proof (cases "heap s w")
      case None
      with Some show ?thesis by (simp add: on_entry_heap_grows(1))
    next
      case (Some e)
      with assms p \<open>element_querySelector (ClassSel ''section-content'') s t = Some w\<close>
      have "style_transition e = Some ''none''" by (simp add: revealed_def)
      with on_entry_heap_grows(2) [OF Some, of en]
        \<open>element_querySelector (ClassSel ''section-content'') s t = Some w\<close>
      show ?thesis by auto
    qed
  qed
  from o c w show ?thesis by (simp add: revealed_def wrapper_on_entry)
qed

lemma revealed_after_reveal:
  assumes "element_querySelector (ClassSel ''section-content'') s t = Some w"
  shows "revealed (on_entry s \<lparr>target = t, isIntersecting = True\<rparr>) t"
proof -
  let ?s1 = "on_entry s \<lparr>target = t, isIntersecting = True\<rparr>"
  have q: "element_querySelector (ClassSel ''section-content'') ?s1 t = Some w"
    using assms by (simp add: wrapper_on_entry)
  have o: "t \<notin> set (observed ?s1)"
    using assms by (simp add: on_entry_def)
  have c: "case heap ?s1 t of None \<Rightarrow> True | Some e \<Rightarrow> ''is-visible'' \<in> set (classList e)"
    using assms by (auto simp add: on_entry_def split: option.splits)
  have tr: "prefersReducedMotion s \<Longrightarrow>
            (case heap ?s1 w of None \<Rightarrow> True | Some e \<Rightarrow> style_transition e = Some ''none'')"
    using assms by (auto simp add: on_entry_def split: option.splits)
  show ?thesis unfolding revealed_def using q o c tr by simp
qed

lemma transition_updateParallax:
  "map_option style_transition (heap (updateParallax s) t) = map_option style_transition (heap s t)"
proof (cases "strict_neq (scrollY s) (lastScrollY s)")
  case True
  show ?thesis
    by (simp add: updateParallax_changed(1) [OF True] option.map_comp comp_def)
next
  case False
  then show ?thesis by (simp add: updateParallax_unchanged)
qed

lemma revealed_cong:
  assumes "revealed s t"
    and "observed s' = observed s"
    and "prefersReducedMotion s' = prefersReducedMotion s"
    and "\<And>i. map_option classList (heap s' i) = map_option classList (heap s i)"
    and "\<And>i. map_option style_transition (heap s' i) = map_option style_transition (heap s i)"
    and "element_querySelector (ClassSel ''section-content'') s' t =
         element_querySelector (ClassSel ''section-content'') s t"
  shows "revealed s' t"
proof -
  have c: "case heap s' t of None \<Rightarrow> True | Some e \<Rightarrow> ''is-visible'' \<in> set (classList e)"
    using assms(1) assms(4) [of t]
    by (cases "heap s t"; cases "heap s' t") (auto simp: revealed_def)
  have w: "prefersReducedMotion s \<Longrightarrow>
           (case element_querySelector (ClassSel ''section-content'') s t of
              None \<Rightarrow> True
            | Some w \<Rightarrow> (case heap s' w of None \<Rightarrow> True
                         | Some e \<Rightarrow> style_transition e = Some ''none''))"
  proof (cases "element_querySelector (ClassSel ''section-content'') s t")
    case None
    then show ?thesis by simp
  next
    case (Some w)
    assume "prefersReducedMotion s"
    with assms(1) Some assms(5) [of w] show ?thesis
      by (cases "heap s w"; cases "heap s' w") (auto simp: revealed_def)
  qed
  from assms(1) c w show ?thesis by (simp add: revealed_def assms(2,3,6))
qed

lemma revealed_updateParallax:
  "revealed s t \<Longrightarrow> revealed (updateParallax s) t"
  by (erule revealed_cong)
     (simp_all add: classList_updateParallax transition_updateParallax wrapper_updateParallax)

lemma revealed_frame_callbacks:
  "revealed s t \<Longrightarrow> revealed (foldl run_callback s cbs) t"
proof (induction cbs arbitrary: s)
  case Nil
  then show ?case by simp
next
  case (Cons cb cbs)
  then show ?case by (cases cb) (simp add: revealed_updateParallax)
qed

lemma revealed_observer_callback:
  "revealed s t \<Longrightarrow> revealed (observer_callback s es) t"
  unfolding observer_callback_def
  by (induction es arbitrary: s) (simp_all add: revealed_on_entry)

lemma revealed_step:
  assumes "revealed s t"
  shows "revealed (step s ev) t"
proof (cases ev)
  case (AnimationFrame y)
  have "revealed (s\<lparr>scrollY := y, raf_queue := []\<rparr>) t"
    by (rule revealed_cong [OF assms]) simp_all
  with AnimationFrame show ?thesis by (simp add: revealed_frame_callbacks)
next
  case (Intersection es)
  with assms show ?thesis by (simp add: revealed_observer_callback)
qed

lemma revealed_run:
  "revealed s t \<Longrightarrow> revealed (run s evs) t"
  unfolding run_def
  by (induction evs arbitrary: s) (simp_all add: revealed_step)

lemma revealed_terminal:
  assumes "revealed s t"
  shows "heap (on_entry s \<lparr>target = t, isIntersecting = b\<rparr>) = heap s"
    and "observed (on_entry s \<lparr>target = t, isIntersecting = b\<rparr>) = observed s"
proof -
  have a: "(heap s)(t := map_option
             (\<lambda>e. e\<lparr>classList := add_token ''is-visible'' (classList e)\<rparr>) (heap s t)) = heap s"
    using assms by (intro heap_update_id) (simp add: revealed_def)
  have b: "element_querySelector (ClassSel ''section-content'') s t = Some w \<Longrightarrow>
           prefersReducedMotion s \<Longrightarrow>
           (heap s)(w := map_option (\<lambda>e. e\<lparr>style_transition := Some ''none''\<rparr>) (heap s w)) = heap s"
    for w
    using assms by (intro heap_update_id) (simp add: revealed_def)
  show "heap (on_entry s \<lparr>target = t, isIntersecting = b\<rparr>) = heap s"
    using a b by (simp add: on_entry_def split: option.splits)
  show "observed (on_entry s \<lparr>target = t, isIntersecting = b\<rparr>) = observed s"
    using assms by (simp add: on_entry_def revealed_def split: option.splits)
qed

lemma ex_observed_wrapper:
  "element_querySelector (ClassSel ''section-content'') (setupIntersectionObserver (ex_page rm)) 1 = Some 2"
  by (simp add: element_querySelector_def descendants_def setupIntersectionObserver_def
        querySelectorAll_def ex_page_def new_page_def ex_document_def ex_heap_def matches_def
        new_element_def add_token_def)

text \<open>
  C3. After the callback has revealed a section with a content wrapper, the section is
  not observed, and after any sequence of further events it is still not observed and
  still carries the class \<^verbatim>\<open>is-visible\<close>; a later entry for the same section,
  intersecting or not, leaves the elements, the document and the observed targets as
  they are.
\<close>

theorem reveal_at_most_once:
  assumes "element_querySelector (ClassSel ''section-content'') s t = Some w"
  shows "t \<notin> set (observed (on_entry s \<lparr>target = t, isIntersecting = True\<rparr>))
    \<and> t \<notin> set (observed (run (on_entry s \<lparr>target = t, isIntersecting = True\<rparr>) evs))
    \<and> (\<forall>e. heap (run (on_entry s \<lparr>target = t, isIntersecting = True\<rparr>) evs) t = Some e
           \<longrightarrow> ''is-visible'' \<in> set (classList e))
    \<and> heap (on_entry (run (on_entry s \<lparr>target = t, isIntersecting = True\<rparr>) evs)
              \<lparr>target = t, isIntersecting = b\<rparr>) =
        heap (run (on_entry s \<lparr>target = t, isIntersecting = True\<rparr>) evs)
    \<and> document (on_entry (run (on_entry s \<lparr>target = t, isIntersecting = True\<rparr>) evs)
              \<lparr>target = t, isIntersecting = b\<rparr>) =
        document (run (on_entry s \<lparr>target = t, isIntersecting = True\<rparr>) evs)
    \<and> observed (on_entry (run (on_entry s \<lparr>target = t, isIntersecting = True\<rparr>) evs)
              \<lparr>target = t, isIntersecting = b\<rparr>) =
        observed (run (on_entry s \<lparr>target = t, isIntersecting = True\<rparr>) evs)"
proof -
  let ?s1 = "on_entry s \<lparr>target = t, isIntersecting = True\<rparr>"
  have r1: "revealed ?s1 t" by (rule revealed_after_reveal [OF assms])
  then have r2: "revealed (run ?s1 evs) t" by (rule revealed_run)
  from r1 r2 revealed_terminal [OF r2, of b] show ?thesis
    by (auto simp add: revealed_def)
qed

theorem reveal_at_most_once_witness:
  "element_querySelector (ClassSel ''section-content'')
     (setupIntersectionObserver (ex_page True)) 1 = Some 2
   \<and> 1 \<in> set (observed (setupIntersectionObserver (ex_page True)))
   \<and> 1 \<notin> set (observed (on_entry (setupIntersectionObserver (ex_page True))
                    \<lparr>target = 1, isIntersecting = True\<rparr>))
   \<and> heap (on_entry (run (on_entry (setupIntersectionObserver (ex_page True))
                          \<lparr>target = 1, isIntersecting = True\<rparr>)
                     [AnimationFrame (Fin 5)])
              \<lparr>target = 1, isIntersecting = True\<rparr>) =
       heap (run (on_entry (setupIntersectionObserver (ex_page True))
                    \<lparr>target = 1, isIntersecting = True\<rparr>)
               [AnimationFrame (Fin 5)])"
  using reveal_at_most_once [OF ex_observed_wrapper [of True], of "[AnimationFrame (Fin 5)]" True]
    ex_observed_wrapper [of True] ex_no_wrapper(2) [of True]
  by simp

section \<open>The two files\<close>

text \<open>
  C10. The callbacks of the two files are the same function. The setups enumerate by
  different selectors, \<^verbatim>\<open>section\<close> in src/app.js and \<^verbatim>\<open>.gw-chapter\<close> in
  src/unnamed/part\_000; they observe the same elements on every document in which an
  element is a section exactly when it has the class \<^verbatim>\<open>gw-chapter\<close>.
\<close>

theorem reveal_files_agree:
  assumes "\<forall>i \<in> set (node_ids (document s)).
             matches (TagSel ''section'') (heap s) i = matches (ClassSel ''gw-chapter'') (heap s) i"
  shows "setupIntersectionObserver_part000 s = setupIntersectionObserver s
    \<and> on_entry_part000 s' en = on_entry s' en
    \<and> observer_callback_part000 s' es = observer_callback s' es"
proof -
  have "querySelectorAll (ClassSel ''gw-chapter'') s = querySelectorAll (TagSel ''section'') s"
    unfolding querySelectorAll_def using assms by (intro filter_cong) simp_all
  moreover have "on_entry_part000 = on_entry"
    by (intro ext) (simp add: on_entry_part000_def on_entry_def)
  ultimately show ?thesis
    by (simp add: setupIntersectionObserver_part000_def setupIntersectionObserver_def
          observer_callback_part000_def observer_callback_def)
qed

theorem reveal_files_agree_witness:
  "setupIntersectionObserver_part000 ex_chapter_page = setupIntersectionObserver ex_chapter_page
   \<and> observed (setupIntersectionObserver ex_chapter_page) = [1]"
proof -
  have h: "\<forall>i \<in> set (node_ids (document ex_chapter_page)).
      matches (TagSel ''section'') (heap ex_chapter_page) i =
      matches (ClassSel ''gw-chapter'') (heap ex_chapter_page) i"
    by (simp add: ex_chapter_page_def new_page_def matches_def new_element_def)
  have o: "observed (setupIntersectionObserver ex_chapter_page) = [1]"
    by (simp add: setupIntersectionObserver_def querySelectorAll_def ex_chapter_page_def
          new_page_def matches_def new_element_def add_token_def)
  from reveal_files_agree [OF h] o show ?thesis by blast
qed

text \<open>
  On the example page, whose second section has no class, the two setups observe
  different elements.
\<close>

theorem reveal_files_differ_counterexample:
  "set (observed (setupIntersectionObserver (ex_page False))) \<noteq>
   set (observed (setupIntersectionObserver_part000 (ex_page False)))"
  by (simp add: setupIntersectionObserver_def setupIntersectionObserver_part000_def
        querySelectorAll_def ex_page_def new_page_def ex_document_def ex_heap_def matches_def
        new_element_def add_token_def)

end
